theory Spec2Isabelle
  imports Complex_Main "HOL-Library.AList"
begin

section \<open>Python values shared by the modules\<close>

text \<open>
  A proposition is represented by the text \<^verbatim>\<open>str(r)[1:-1]\<close> and an action by the text
  \<^verbatim>\<open>act.details()\<close>: besides equality these are the only views of a fluent and of an
  action that the code below takes. A \<^verbatim>\<open>State\<close> is a dict from fluents to truth values,
  kept as an association list in iteration order.
\<close>

type_synonym fluent = string
type_synonym action = string
type_synonym state = "(fluent \<times> bool) list"

datatype token = ActionObservation | NoisyPartialDisorderedParallelObservation
  | OtherObservation string

datatype error = IncompatibleObservationToken token string
  | KeyError | IndexError | ZeroDivisionError | TypeError | AttributeError

text \<open>A \<^verbatim>\<open>Step\<close> (and an observation token built from it): a state and an action, the
  action being \<^verbatim>\<open>None\<close> on the final step of a generated trace.\<close>

record step =
  state :: state
  action :: "action option"

section \<open>trace/trace.py\<close>

type_synonym trace = "step list"

datatype SAS = SAS (pre_state: state) (sas_action: action) (post_state: state)

text \<open>\<^verbatim>\<open>Trace.__getitem__\<close> with a non-negative key: \<^verbatim>\<open>self.steps[key]\<close>.\<close>

definition getitem :: "'a list \<Rightarrow> nat \<Rightarrow> error + 'a" where
  "getitem xs key = (if key < length xs then Inr (xs ! key) else Inl IndexError)"

text \<open>The loop of \<^verbatim>\<open>get_post_states\<close> over \<^verbatim>\<open>enumerate(self)\<close>, with the list
  \<^verbatim>\<open>post_states\<close> built so far.\<close>

fun post_states_loop :: "trace \<Rightarrow> action \<Rightarrow> (nat \<times> step) list \<Rightarrow> state list
    \<Rightarrow> error + state list" where
  "post_states_loop t a [] post_states = Inr post_states"
| "post_states_loop t a ((i, s) # rest) post_states =
     (if action s = Some a then
        (case getitem t (i + 1) of
           Inl e \<Rightarrow> Inl e
         | Inr nxt \<Rightarrow> post_states_loop t a rest (post_states @ [state nxt]))
      else post_states_loop t a rest post_states)"

definition get_post_states :: "trace \<Rightarrow> action \<Rightarrow> error + state list" where
  "get_post_states t a = post_states_loop t a (enumerate 0 t) []"

fun sas_triples_loop :: "trace \<Rightarrow> action \<Rightarrow> (nat \<times> step) list \<Rightarrow> SAS list
    \<Rightarrow> error + SAS list" where
  "sas_triples_loop t a [] sas_triples = Inr sas_triples"
| "sas_triples_loop t a ((i, s) # rest) sas_triples =
     (if action s = Some a then
        (case getitem t (i + 1) of
           Inl e \<Rightarrow> Inl e
         | Inr nxt \<Rightarrow> sas_triples_loop t a rest (sas_triples @ [SAS (state s) a (state nxt)]))
      else sas_triples_loop t a rest sas_triples)"

definition get_sas_triples :: "trace \<Rightarrow> action \<Rightarrow> error + SAS list" where
  "get_sas_triples t a = sas_triples_loop t a (enumerate 0 t) []"

text \<open>The indices at which the action occurs in the trace.\<close>

definition occurrences_of :: "trace \<Rightarrow> action \<Rightarrow> nat list" where
  "occurrences_of t a = filter (\<lambda>i. action (t ! i) = Some a) [0..<length t]"

section \<open>extract/model.py\<close>

text \<open>
  The Python objects that \<^verbatim>\<open>json.dumps\<close> meets when it walks a \<^verbatim>\<open>Model\<close>: strings, lists,
  sets, dicts with string keys, and instances of user classes, which carry their
  \<^verbatim>\<open>__dict__\<close>.
\<close>

datatype pyobj = PyStr string | PyList "pyobj list" | PySet "pyobj list"
  | PyDict "(string \<times> pyobj) list" | PyInstance "(string \<times> pyobj) list"

datatype json = JString string | JArray "json list" | JObject "(string \<times> json) list"

text \<open>
  \<^verbatim>\<open>dumps(obj, indent=2, default=lambda o: o.__dict__)\<close>, as a document tree. The encoder
  handles strings, lists and dicts itself and hands every other object to \<^verbatim>\<open>default\<close>:
  an instance is replaced by its \<^verbatim>\<open>__dict__\<close> and encoded as that dict; a set has no
  \<^verbatim>\<open>__dict__\<close>, so the attribute lookup raises \<^verbatim>\<open>AttributeError\<close>.
\<close>

fun dumps :: "pyobj \<Rightarrow> error + json"
  and dumps_list :: "pyobj list \<Rightarrow> error + json list"
  and dumps_items :: "(string \<times> pyobj) list \<Rightarrow> error + (string \<times> json) list" where
  "dumps (PyStr s) = Inr (JString s)"
| "dumps (PyList xs) = (case dumps_list xs of Inl e \<Rightarrow> Inl e | Inr js \<Rightarrow> Inr (JArray js))"
| "dumps (PyDict kvs) = (case dumps_items kvs of Inl e \<Rightarrow> Inl e | Inr js \<Rightarrow> Inr (JObject js))"
| "dumps (PyInstance d) = (case dumps_items d of Inl e \<Rightarrow> Inl e | Inr js \<Rightarrow> Inr (JObject js))"
| "dumps (PySet xs) = Inl AttributeError"
| "dumps_list [] = Inr []"
| "dumps_list (x # xs) =
     (case dumps x of Inl e \<Rightarrow> Inl e
      | Inr j \<Rightarrow> (case dumps_list xs of Inl e \<Rightarrow> Inl e | Inr js \<Rightarrow> Inr (j # js)))"
| "dumps_items [] = Inr []"
| "dumps_items ((k, v) # kvs) =
     (case dumps v of Inl e \<Rightarrow> Inl e
      | Inr j \<Rightarrow> (case dumps_items kvs of Inl e \<Rightarrow> Inl e | Inr js \<Rightarrow> Inr ((k, j) # js)))"

text \<open>A \<^verbatim>\<open>Model\<close>: the set of fluents and the set of actions, each listed in iteration
  order. The classes \<^verbatim>\<open>Fluent\<close> and \<^verbatim>\<open>Action\<close> are declared outside these sources, so the
  Python object of a fluent and of an action is a parameter.\<close>

record ('f, 'a) Model =
  fluents :: "'f list"
  actions :: "'a list"

definition Model_instance :: "('f \<Rightarrow> pyobj) \<Rightarrow> ('a \<Rightarrow> pyobj) \<Rightarrow> ('f, 'a) Model \<Rightarrow> pyobj" where
  "Model_instance fluent_obj action_obj m =
     PyInstance [(''fluents'', PySet (map fluent_obj (fluents m))),
                 (''actions'', PySet (map action_obj (actions m)))]"

text \<open>\<^verbatim>\<open>Model.serialize\<close> with \<^verbatim>\<open>filepath=None\<close>.\<close>

definition serialize :: "('f \<Rightarrow> pyobj) \<Rightarrow> ('a \<Rightarrow> pyobj) \<Rightarrow> ('f, 'a) Model \<Rightarrow> error + json" where
  "serialize fluent_obj action_obj m = dumps (Model_instance fluent_obj action_obj m)"

section \<open>extract/amdn.py\<close>

subsection \<open>Variables, clauses and weights\<close>

text \<open>
  A \<^verbatim>\<open>Var\<close> of the nnf library has a name, which is a string or an \<^verbatim>\<open>Aux\<close> object, and a
  polarity. An \<^verbatim>\<open>Or\<close> node whose children are all variables is a clause; its children
  form a frozenset, so a clause used as a dict key is a set of variables. Where the code
  iterates over the children they are listed.
\<close>

datatype name = Named string | Aux nat

datatype var = Var name bool

fun negate :: "var \<Rightarrow> var" where
  "negate (Var n b) = Var n (\<not> b)"

type_synonym clause = "var set"

datatype nnf = Lit var | And "nnf list" | Or "nnf list"

text \<open>\<^verbatim>\<open>implies(a, b)\<close> of nnf.operators is \<^verbatim>\<open>Or({a.negate(), b})\<close>.\<close>

definition implies :: "var \<Rightarrow> var \<Rightarrow> clause" where
  "implies a b = {negate a, b}"

text \<open>A weight stored in a constraint dict is the string \<^verbatim>\<open>"HARD"\<close> or a number. Numbers
  are exact rationals here; the rounding of Python floats is not modelled.\<close>

datatype weight = HARD | Weight rat

type_synonym constraints = "(clause \<times> weight) list"

definition set_precond :: "string \<Rightarrow> action \<Rightarrow> var" where
  "set_precond r act = Var (Named (r @ '' is a precondition of '' @ act)) True"

definition set_del :: "string \<Rightarrow> action \<Rightarrow> var" where
  "set_del r act = Var (Named (r @ '' is deleted by '' @ act)) True"

definition set_add :: "string \<Rightarrow> action \<Rightarrow> var" where
  "set_add r act = Var (Named (r @ '' is added by '' @ act)) True"

abbreviation pre :: "string \<Rightarrow> action \<Rightarrow> var" where "pre \<equiv> set_precond"
abbreviation add :: "string \<Rightarrow> action \<Rightarrow> var" where "add \<equiv> set_add"
abbreviation delete :: "string \<Rightarrow> action \<Rightarrow> var" where "delete \<equiv> set_del"

definition WMAX :: rat where
  "WMAX = 1"

text \<open>A dict is an association list in insertion order: \<^verbatim>\<open>d[k] = v\<close> is
  \<^const>\<open>AList.update\<close>, which overwrites in place or appends. \<^verbatim>\<open>{**a, **b}\<close> stores the
  items of \<^verbatim>\<open>b\<close> into a copy of \<^verbatim>\<open>a\<close>; \<^verbatim>\<open>d[k]\<close> raises \<^verbatim>\<open>KeyError\<close> on a missing key.\<close>

definition merge :: "('k \<times> 'v) list \<Rightarrow> ('k \<times> 'v) list \<Rightarrow> ('k \<times> 'v) list" where
  "merge a b = fold (\<lambda>kv. AList.update (fst kv) (snd kv)) b a"

definition lookup :: "('k \<times> 'v) list \<Rightarrow> 'k \<Rightarrow> error + 'v" where
  "lookup d k = (case map_of d k of None \<Rightarrow> Inl KeyError | Some v \<Rightarrow> Inr v)"

text \<open>A loop whose body may raise: the first exception ends it.\<close>

fun foldE :: "('a \<Rightarrow> 's \<Rightarrow> error + 's) \<Rightarrow> 'a list \<Rightarrow> 's \<Rightarrow> error + 's" where
  "foldE f [] s = Inr s"
| "foldE f (x # xs) s = (case f x s of Inl e \<Rightarrow> Inl e | Inr s' \<Rightarrow> foldE f xs s')"

subsection \<open>The observation collection\<close>

text \<open>
  \<^verbatim>\<open>ObservationLists\<close> is declared outside these sources; the record holds what the
  extraction reads from it: its token type, the traces it iterates and indexes (lists of
  observation tokens), the parallel action sets and the states of every trace, the sets of
  propositions and actions (listed in iteration order) and the probability table, a dict
  keyed by \<^verbatim>\<open>ActionPair\<close>, an unordered pair of actions.
\<close>

record obs_lists =
  type :: token
  traces :: "step list list"
  all_par_act_sets :: "action list list list"
  states :: "state list list"
  propositions :: "fluent list"
  actions :: "action list"
  probabilities :: "(action set \<times> rat) list"

subsection \<open>Registering a converted formula\<close>

definition or_refactor :: "var + clause \<Rightarrow> clause" where
  "or_refactor maybe_lit = (case maybe_lit of Inl v \<Rightarrow> {v} | Inr c \<Rightarrow> c)"

text \<open>\<^verbatim>\<open>if isinstance(var.name, Aux): aux_var.add(var.name)\<close>. The set \<^verbatim>\<open>aux_var\<close> is kept as
  a list without repetitions; the loop over it visits the list in order, where Python
  leaves the order of a set open.\<close>

fun add_aux :: "var \<Rightarrow> name list \<Rightarrow> name list" where
  "add_aux (Var (Aux n) b) aux_var = List.insert (Aux n) aux_var"
| "add_aux (Var (Named s) b) aux_var = aux_var"

text \<open>One round of the loop over the clauses: collect the auxiliary names of the clause,
  then mark the clause hard.\<close>

definition clause_step :: "var list \<Rightarrow> name list \<times> constraints \<Rightarrow> name list \<times> constraints" where
  "clause_step clause s = (fold add_aux clause (fst s), AList.update (set clause) HARD (snd s))"

definition extract_aux_set_weights :: "var list list \<Rightarrow> constraints \<Rightarrow> rat \<Rightarrow> constraints" where
  "extract_aux_set_weights cnf_formula constraints prob_disordered =
     (let s = fold clause_step cnf_formula ([], constraints)
      in fold (\<lambda>aux. AList.update (or_refactor (Inl (Var aux True)))
                                   (Weight (prob_disordered * WMAX)))
              (fst s) (snd s))"

subsection \<open>Disorder constraints\<close>

text \<open>The two formulas built for a proposition and a pair of actions, before conversion.\<close>

definition ordered_formula :: "fluent \<Rightarrow> action \<Rightarrow> action \<Rightarrow> nnf" where
  "ordered_formula r act_x act_y =
     Or [And [Lit (pre r act_x), Lit (negate (delete r act_x)), Lit (delete r act_y)],
         And [Lit (add r act_x), Lit (pre r act_y)],
         And [Lit (add r act_x), Lit (delete r act_y)],
         And [Lit (delete r act_x), Lit (add r act_y)]]"

definition disordered_formula :: "fluent \<Rightarrow> action \<Rightarrow> action \<Rightarrow> nnf" where
  "disordered_formula r act_x act_y =
     Or [And [Lit (pre r act_y), Lit (negate (delete r act_y)), Lit (delete r act_x)],
         And [Lit (add r act_y), Lit (pre r act_x)],
         And [Lit (add r act_y), Lit (delete r act_x)],
         And [Lit (delete r act_y), Lit (add r act_x)]]"

text \<open>The conversion \<^verbatim>\<open>to_CNF\<close> belongs to the nnf library and is a parameter. The body of
  the loop over the propositions registers the ordered formula with \<^verbatim>\<open>1 - p\<close>, then the
  disordered formula with \<^verbatim>\<open>p\<close>.\<close>

definition disorder_register :: "(nnf \<Rightarrow> var list list) \<Rightarrow> action \<Rightarrow> action \<Rightarrow> rat
    \<Rightarrow> fluent \<Rightarrow> constraints \<Rightarrow> constraints" where
  "disorder_register to_CNF act_x act_y p r disorder_constraints =
     extract_aux_set_weights (to_CNF (disordered_formula r act_x act_y))
       (extract_aux_set_weights (to_CNF (ordered_formula r act_x act_y))
          disorder_constraints (1 - p))
       p"

definition disorder_pair :: "(nnf \<Rightarrow> var list list) \<Rightarrow> obs_lists \<Rightarrow> action \<Rightarrow> action
    \<Rightarrow> constraints \<Rightarrow> error + constraints" where
  "disorder_pair to_CNF obs act_x act_y disorder_constraints =
     (if act_x \<noteq> act_y then
        (case lookup (probabilities obs) {act_x, act_y} of
           Inl e \<Rightarrow> Inl e
         | Inr p \<Rightarrow> Inr (fold (disorder_register to_CNF act_x act_y p) (propositions obs)
                          disorder_constraints))
      else Inr disorder_constraints)"

text \<open>The loop over \<^verbatim>\<open>range(len(par_act_sets) - 1)\<close> for one trace.\<close>

definition disorder_trace :: "(nnf \<Rightarrow> var list list) \<Rightarrow> obs_lists \<Rightarrow> action list list
    \<Rightarrow> constraints \<Rightarrow> error + constraints" where
  "disorder_trace to_CNF obs par_act_sets =
     foldE (\<lambda>j. foldE (\<lambda>act_x. foldE (disorder_pair to_CNF obs act_x) (par_act_sets ! (j + 1)))
                       (par_act_sets ! j))
           [0..<length par_act_sets - 1]"

text \<open>The \<^verbatim>\<open>return\<close> stands inside the loop over the traces: the function returns after the
  first trace, and falls off its end, returning \<^verbatim>\<open>None\<close>, when there is no trace.\<close>

definition build_disorder_constraints :: "(nnf \<Rightarrow> var list list) \<Rightarrow> obs_lists
    \<Rightarrow> error + constraints option" where
  "build_disorder_constraints to_CNF obs =
     (case all_par_act_sets obs of
        [] \<Rightarrow> Inr None
      | par_act_sets # _ \<Rightarrow>
          (case disorder_trace to_CNF obs par_act_sets [] of
             Inl e \<Rightarrow> Inl e
           | Inr disorder_constraints \<Rightarrow> Inr (Some disorder_constraints)))"

subsection \<open>Parallel constraints\<close>

text \<open>The inner loop runs over the keys of the probability table. The class of these keys,
  \<^verbatim>\<open>ActionPair\<close>, is declared outside these sources, so the text \<^verbatim>\<open>str(r)[1:-1]\<close> of a key
  is a parameter.\<close>

definition build_hard_parallel_constraints :: "(action set \<Rightarrow> string) \<Rightarrow> obs_lists
    \<Rightarrow> constraints" where
  "build_hard_parallel_constraints pair_text obs =
     fold (\<lambda>act. fold (\<lambda>r hard_constraints.
                    AList.update (implies (delete (pair_text r) act) (pre (pair_text r) act))
                      (Weight WMAX)
                      (AList.update
                         (implies (add (pair_text r) act) (negate (pre (pair_text r) act)))
                         (Weight WMAX) hard_constraints))
                  (map fst (probabilities obs)))
          (actions obs) []"

definition untouched_formula :: "fluent \<Rightarrow> action \<Rightarrow> action \<Rightarrow> nnf" where
  "untouched_formula r act_x_prime act_x =
     Or [And [Lit (negate (add r act_x_prime)), Lit (negate (delete r act_x_prime))],
         And [Lit (negate (add r act_x)), Lit (negate (delete r act_x))]]"

definition soft_pair :: "(nnf \<Rightarrow> var list list) \<Rightarrow> obs_lists \<Rightarrow> bool \<Rightarrow> action \<Rightarrow> action
    \<Rightarrow> constraints \<Rightarrow> error + constraints" where
  "soft_pair to_CNF obs disordered act_x act_x_prime soft_constraints =
     (if act_x \<noteq> act_x_prime then
        (case lookup (probabilities obs) {act_x, act_x_prime} of
           Inl e \<Rightarrow> Inl e
         | Inr p \<Rightarrow>
             Inr (fold (\<lambda>r c. extract_aux_set_weights
                                 (to_CNF (untouched_formula r act_x_prime act_x)) c
                                 (if disordered then p else 1 - p))
                       (propositions obs) soft_constraints))
      else Inr soft_constraints)"

definition build_soft_parallel_constraints :: "(nnf \<Rightarrow> var list list) \<Rightarrow> obs_lists
    \<Rightarrow> error + constraints" where
  "build_soft_parallel_constraints to_CNF obs =
     (case foldE (\<lambda>par_act_sets.
              foldE (\<lambda>j. foldE (\<lambda>act_x. foldE (soft_pair to_CNF obs False act_x)
                                                (par_act_sets ! j))
                                (par_act_sets ! j))
                    [0..<length par_act_sets])
            (all_par_act_sets obs) [] of
        Inl e \<Rightarrow> Inl e
      | Inr soft_constraints \<Rightarrow>
          foldE (\<lambda>par_act_sets.
              foldE (\<lambda>j. foldE (\<lambda>act_y. foldE (soft_pair to_CNF obs True act_y)
                                                (par_act_sets ! j))
                                (par_act_sets ! (j + 1)))
                    [0..<length par_act_sets - 1])
            (all_par_act_sets obs) soft_constraints)"

definition build_parallel_constraints :: "(nnf \<Rightarrow> var list list) \<Rightarrow> (action set \<Rightarrow> string)
    \<Rightarrow> obs_lists \<Rightarrow> error + constraints" where
  "build_parallel_constraints to_CNF pair_text obs =
     (case build_soft_parallel_constraints to_CNF obs of
        Inl e \<Rightarrow> Inl e
      | Inr soft \<Rightarrow> Inr (merge (build_hard_parallel_constraints pair_text obs) soft))"

subsection \<open>Noise constraints\<close>

text \<open>\<^verbatim>\<open>[f for f in state if state[f]]\<close>\<close>

definition true_prop :: "state \<Rightarrow> fluent list" where
  "true_prop st = filter (\<lambda>f. map_of st f = Some True) (map fst st)"

definition calculate_all_r_occ :: "obs_lists \<Rightarrow> int" where
  "calculate_all_r_occ obs =
     fold (\<lambda>trace. fold (\<lambda>step all_occ. all_occ + int (length (true_prop (state step)))) trace)
          (traces obs) 0"

type_synonym occurrences = "(action \<times> (fluent \<times> int) list) list"

definition set_up_occurrences_dict :: "obs_lists \<Rightarrow> occurrences" where
  "set_up_occurrences_dict obs =
     fold (\<lambda>a. AList.update a (fold (\<lambda>r. AList.update r 0) (propositions obs) []))
          (actions obs) []"

text \<open>\<^verbatim>\<open>occurrences[a][r] += 1\<close>, where \<^verbatim>\<open>a\<close> is the action of a step and may be \<^verbatim>\<open>None\<close>.\<close>

definition increment :: "action option \<Rightarrow> fluent \<Rightarrow> occurrences \<Rightarrow> error + occurrences" where
  "increment a r occurrences =
     (case a of
        None \<Rightarrow> Inl KeyError
      | Some act \<Rightarrow>
          (case map_of occurrences act of
             None \<Rightarrow> Inl KeyError
           | Some row \<Rightarrow>
               (case map_of row r of
                  None \<Rightarrow> Inl KeyError
                | Some n \<Rightarrow> Inr (AList.update act (AList.update r (n + 1) row) occurrences))))"

text \<open>The closing loops of rules 6 and 8 over the occurrence table differ only in the
  literal they constrain.\<close>

definition over_threshold :: "(fluent \<Rightarrow> action \<Rightarrow> var) \<Rightarrow> int \<Rightarrow> int \<Rightarrow> action
    \<Rightarrow> fluent \<times> int \<Rightarrow> constraints \<Rightarrow> error + constraints" where
  "over_threshold lit all_occ occ_threshold a entry noise_constraints =
     (if snd entry > occ_threshold then
        (if all_occ = 0 then Inl ZeroDivisionError
         else Inr (AList.update (or_refactor (Inl (lit (fst entry) a)))
                     (Weight (of_int (snd entry) / of_int all_occ)) noise_constraints))
      else Inr noise_constraints)"

definition threshold_loop :: "(fluent \<Rightarrow> action \<Rightarrow> var) \<Rightarrow> int \<Rightarrow> int \<Rightarrow> occurrences
    \<Rightarrow> error + constraints" where
  "threshold_loop lit all_occ occ_threshold occurrences =
     foldE (\<lambda>arow. foldE (over_threshold lit all_occ occ_threshold (fst arow)) (snd arow))
           occurrences []"

definition noise_constraints_6 :: "obs_lists \<Rightarrow> int \<Rightarrow> int \<Rightarrow> error + constraints" where
  "noise_constraints_6 obs all_occ occ_threshold =
     (case foldE (\<lambda>tr. foldE (\<lambda>j. foldE (increment (action (tr ! j)))
                                        (true_prop (state (tr ! (j + 1)))))
                              [0..<length tr - 1])
                 (traces obs) (set_up_occurrences_dict obs) of
        Inl e \<Rightarrow> Inl e
      | Inr occurrences \<Rightarrow>
          threshold_loop (\<lambda>r a. negate (delete r a)) all_occ occ_threshold occurrences)"

definition noise_constraints_8 :: "obs_lists \<Rightarrow> int \<Rightarrow> int \<Rightarrow> error + constraints" where
  "noise_constraints_8 obs all_occ occ_threshold =
     (case foldE (\<lambda>tr. foldE (\<lambda>j. foldE (increment (action (tr ! j)))
                                        (true_prop (state (tr ! j))))
                              [0..<length tr])
                 (traces obs) (set_up_occurrences_dict obs) of
        Inl e \<Rightarrow> Inl e
      | Inr occurrences \<Rightarrow> threshold_loop pre all_occ occ_threshold occurrences)"

definition increment_7 :: "fluent \<Rightarrow> (fluent \<times> int) list \<Rightarrow> error + (fluent \<times> int) list" where
  "increment_7 r occurrences =
     (case map_of occurrences r of
        None \<Rightarrow> Inl KeyError
      | Some n \<Rightarrow> Inr (AList.update r (n + 1) occurrences))"

text \<open>Rule 7 for one proposition that is true after the parallel action set \<^verbatim>\<open>j\<close>.\<close>

definition added_by_some :: "(fluent \<times> int) list \<Rightarrow> int \<Rightarrow> action list \<Rightarrow> state \<Rightarrow> fluent
    \<Rightarrow> constraints \<Rightarrow> error + constraints" where
  "added_by_some occurrences all_occ acts before r noise_constraints =
     (case lookup before r of
        Inl e \<Rightarrow> Inl e
      | Inr holds \<Rightarrow>
          (if \<not> holds then
             (case lookup occurrences r of
                Inl e \<Rightarrow> Inl e
              | Inr occ_r \<Rightarrow>
                  (if all_occ = 0 then Inl ZeroDivisionError
                   else Inr (AList.update (set (map (add r) acts))
                               (Weight (of_int occ_r / of_int all_occ)) noise_constraints)))
           else Inr noise_constraints))"

definition noise_constraints_7 :: "obs_lists \<Rightarrow> int \<Rightarrow> error + constraints" where
  "noise_constraints_7 obs all_occ =
     (case foldE (\<lambda>trace. foldE (\<lambda>st. foldE increment_7 (true_prop st)) trace)
                 (states obs) (fold (\<lambda>r. AList.update r 0) (propositions obs) []) of
        Inl e \<Rightarrow> Inl e
      | Inr occurrences \<Rightarrow>
          foldE (\<lambda>i c.
              (case getitem (states obs) i of
                 Inl e \<Rightarrow> Inl e
               | Inr sts \<Rightarrow>
                   foldE (\<lambda>j c.
                       (case getitem sts (j + 1) of
                          Inl e \<Rightarrow> Inl e
                        | Inr after \<Rightarrow>
                            foldE (added_by_some occurrences all_occ
                                     (all_par_act_sets obs ! i ! j) (sts ! j))
                                  (true_prop after) c))
                     [0..<length (all_par_act_sets obs ! i)] c))
            [0..<length (all_par_act_sets obs)] [])"

definition build_noise_constraints :: "obs_lists \<Rightarrow> int \<Rightarrow> error + constraints" where
  "build_noise_constraints obs occ_threshold =
     (let all_occ = calculate_all_r_occ obs in
      case noise_constraints_6 obs all_occ occ_threshold of
        Inl e \<Rightarrow> Inl e
      | Inr n6 \<Rightarrow>
          (case noise_constraints_7 obs all_occ of
             Inl e \<Rightarrow> Inl e
           | Inr n7 \<Rightarrow>
               (case noise_constraints_8 obs all_occ occ_threshold of
                  Inl e \<Rightarrow> Inl e
                | Inr n8 \<Rightarrow> Inr (merge (merge n6 n7) n8))))"

subsection \<open>Aggregation and the entry point\<close>

text \<open>Unpacking \<^verbatim>\<open>None\<close> with \<^verbatim>\<open>**\<close> raises \<^verbatim>\<open>TypeError\<close>, before the next builder runs.\<close>

definition set_all_constraints :: "(nnf \<Rightarrow> var list list) \<Rightarrow> (action set \<Rightarrow> string)
    \<Rightarrow> obs_lists \<Rightarrow> int \<Rightarrow> error + constraints" where
  "set_all_constraints to_CNF pair_text obs occ_threshold =
     (case build_disorder_constraints to_CNF obs of
        Inl e \<Rightarrow> Inl e
      | Inr None \<Rightarrow> Inl TypeError
      | Inr (Some disorder) \<Rightarrow>
          (case build_parallel_constraints to_CNF pair_text obs of
             Inl e \<Rightarrow> Inl e
           | Inr parallel \<Rightarrow>
               (case build_noise_constraints obs occ_threshold of
                  Inl e \<Rightarrow> Inl e
                | Inr noise \<Rightarrow> Inr (merge (merge disorder parallel) noise))))"

text \<open>The list \<^verbatim>\<open>hard_constraints\<close> of \<^verbatim>\<open>_solve_constraints\<close>: the keys whose weight is the
  string \<^verbatim>\<open>"HARD"\<close>.\<close>

definition hard_constraints_of :: "constraints \<Rightarrow> clause list" where
  "hard_constraints_of constraints = map fst (filter (\<lambda>cw. snd cw = HARD) constraints)"

text \<open>The encoder \<^verbatim>\<open>to_wcnf\<close> lives in \<^verbatim>\<open>utils/pysat.py\<close>, outside these sources, and is a
  parameter: from the clauses and the optional weights it gives a weighted CNF and a decode
  table. \<^verbatim>\<open>WCNF.extend\<close> without weights appends hard clauses.\<close>

record wcnf =
  hard :: "int list list"
  soft :: "int list list"
  wght :: "rat list"

definition solve_constraints :: "(nnf \<Rightarrow> var list list) \<Rightarrow> (action set \<Rightarrow> string)
    \<Rightarrow> (clause list \<Rightarrow> weight list option \<Rightarrow> error + wcnf \<times> 'd)
    \<Rightarrow> obs_lists \<Rightarrow> int \<Rightarrow> error + wcnf \<times> 'd" where
  "solve_constraints to_CNF pair_text to_wcnf obs occ_threshold =
     (case set_all_constraints to_CNF pair_text obs occ_threshold of
        Inl e \<Rightarrow> Inl e
      | Inr constraints \<Rightarrow>
          (let hard_constraints = hard_constraints_of constraints;
               remaining = fold AList.delete hard_constraints constraints
           in case to_wcnf (map fst remaining) (Some (map snd remaining)) of
                Inl e \<Rightarrow> Inl e
              | Inr (w, decode) \<Rightarrow>
                  (case to_wcnf hard_constraints None of
                     Inl e \<Rightarrow> Inl e
                   | Inr (hard_wcnf, decode) \<Rightarrow>
                       Inr (w\<lparr>hard := hard w @ soft hard_wcnf\<rparr>, decode))))"

text \<open>\<^verbatim>\<open>AMDN.__new__\<close>: the result of the solving step is bound to a local and the call
  returns \<^verbatim>\<open>None\<close>.\<close>

definition AMDN_new :: "(nnf \<Rightarrow> var list list) \<Rightarrow> (action set \<Rightarrow> string)
    \<Rightarrow> (clause list \<Rightarrow> weight list option \<Rightarrow> error + wcnf \<times> 'd)
    \<Rightarrow> obs_lists \<Rightarrow> int \<Rightarrow> error + unit" where
  "AMDN_new to_CNF pair_text to_wcnf obs_lists occ_threshold =
     (if type obs_lists \<noteq> NoisyPartialDisorderedParallelObservation then
        Inl (IncompatibleObservationToken (type obs_lists) ''AMDN'')
      else
        (case solve_constraints to_CNF pair_text to_wcnf obs_lists occ_threshold of
           Inl e \<Rightarrow> Inl e
         | Inr solve \<Rightarrow> Inr ()))"

section \<open>Notions used in the statements\<close>

fun is_aux :: "name \<Rightarrow> bool" where
  "is_aux (Aux n) = True"
| "is_aux (Named s) = False"

fun var_name :: "var \<Rightarrow> name" where
  "var_name (Var n b) = n"

text \<open>The auxiliary names that occur in a converted formula, and their positive unit
  clauses.\<close>

definition aux_vars :: "var list list \<Rightarrow> name set" where
  "aux_vars cnf = Set.filter is_aux (var_name ` (\<Union>cl \<in> set cnf. set cl))"

definition aux_units :: "var list list \<Rightarrow> clause set" where
  "aux_units cnf = (\<lambda>aux. {Var aux True}) ` aux_vars cnf"

text \<open>Occurrence tables in which every count is zero.\<close>

definition zero_row :: "(fluent \<times> int) list \<Rightarrow> bool" where
  "zero_row row = (\<forall>e \<in> set row. snd e = 0)"

definition zero_table :: "occurrences \<Rightarrow> bool" where
  "zero_table occ = (\<forall>arow \<in> set occ. zero_row (snd arow))"

text \<open>A collection of one trace whose states hold one proposition, false throughout.\<close>

definition quiet_obs :: obs_lists where
  "quiet_obs = \<lparr>type = NoisyPartialDisorderedParallelObservation,
     traces = [[\<lparr>state = [(''r'', False)], action = Some ''a''\<rparr>,
                \<lparr>state = [(''r'', False)], action = None\<rparr>]],
     all_par_act_sets = [[[''a'']]],
     states = [[[(''r'', False)], [(''r'', False)]]],
     propositions = [''r''], actions = [''a''], probabilities = []\<rparr>"


text \<open>The numeric weights of a constraint dict, and the invariant the weights are asked to
  keep against a hard weight.\<close>

definition soft_weights :: "constraints \<Rightarrow> rat list" where
  "soft_weights c = concat (map (\<lambda>cw. case snd cw of HARD \<Rightarrow> [] | Weight q \<Rightarrow> [q]) c)"


text \<open>A stand-in for the conversion of the library: the ordered formula of the example pair
  is named by one auxiliary variable, every other formula by another.\<close>

definition example_cnf :: "nnf \<Rightarrow> var list list" where
  "example_cnf f =
     (if f = ordered_formula ''r'' ''x'' ''y''
      then [[Var (Aux 0) False, pre ''r'' ''x'', add ''r'' ''x'', delete ''r'' ''x'']]
      else [[Var (Aux 1) False, pre ''r'' ''y'', add ''r'' ''y'', delete ''r'' ''y'']])"

text \<open>A collection of one trace of two parallel action sets, one action each, with the
  given disorder probability for the pair.\<close>

definition pair_obs :: "rat \<Rightarrow> obs_lists" where
  "pair_obs p = \<lparr>type = NoisyPartialDisorderedParallelObservation, traces = [],
     all_par_act_sets = [[[''x''], [''y'']]], states = [],
     propositions = [''r''], actions = [''x'', ''y''],
     probabilities = [({''x'', ''y''}, p)]\<rparr>"

text \<open>A collection of two traces: the first of one parallel action set, the second the
  trace of the collection above.\<close>

definition later_pair_obs :: "rat \<Rightarrow> obs_lists" where
  "later_pair_obs p = \<lparr>type = NoisyPartialDisorderedParallelObservation, traces = [],
     all_par_act_sets = [[[''x'']], [[''x''], [''y'']]], states = [],
     propositions = [''r''], actions = [''x'', ''y''],
     probabilities = [({''x'', ''y''}, p)]\<rparr>"




section \<open>Successor-state lookups in a trace\<close>

lemma drop_Cons_nth:
  "drop k t = x # xs \<Longrightarrow> t ! k = x \<and> drop (Suc k) t = xs \<and> k < length t"
proof -
  assume a: "drop k t = x # xs"
  then have k: "k < length t" by (cases "k < length t") auto
  from a k have "x # xs = t ! k # drop (Suc k) t" by (simp add: Cons_nth_drop_Suc)
  with k show ?thesis by simp
qed

lemma drop_Suc_nil:
  "drop (Suc k) t = xs \<Longrightarrow> k < length t \<Longrightarrow> (xs = [] \<longleftrightarrow> Suc k = length t)"
  by auto

lemma post_states_loop_drop:
  "drop k t = xs \<Longrightarrow>
   post_states_loop t a (enumerate k xs) acc =
     (if xs \<noteq> [] \<and> action (last xs) = Some a then Inl IndexError
      else Inr (acc @ map (\<lambda>i. state (t ! Suc i))
                  (filter (\<lambda>i. action (t ! i) = Some a) [k..<length t])))"
proof (induction xs arbitrary: k acc)
  case Nil
  then show ?case by simp
next
  case (Cons x xs)
  from Cons.prems have x: "t ! k = x" and d: "drop (Suc k) t = xs" and k: "k < length t"
    using drop_Cons_nth [of k t x xs] by simp_all
  have upt: "[k..<length t] = k # [Suc k..<length t]"
    using k by (simp add: upt_conv_Cons)
  have nil: "xs = [] \<longleftrightarrow> Suc k = length t"
    using d k by (rule drop_Suc_nil)
  show ?case
  proof (cases "action x = Some a")
    case True
    show ?thesis
    proof (cases "xs = []")
      case True
      with \<open>action x = Some a\<close> nil show ?thesis by (simp add: getitem_def)
    next
      case False
      with nil k have "Suc k < length t" by linarith
      with True False x show ?thesis
        using Cons.IH [OF d, of "acc @ [state (t ! Suc k)]"]
        by (simp add: getitem_def upt)
    qed
  next
    case False
    show ?thesis
    proof (cases "xs = []")
      case True
      with False nil x show ?thesis by (simp add: upt)
    next
      case nonempty: False
      with False x show ?thesis
        using Cons.IH [OF d, of acc] by (simp add: upt)
    qed
  qed
qed

lemma sas_triples_loop_drop:
  "drop k t = xs \<Longrightarrow>
   sas_triples_loop t a (enumerate k xs) acc =
     (if xs \<noteq> [] \<and> action (last xs) = Some a then Inl IndexError
      else Inr (acc @ map (\<lambda>i. SAS (state (t ! i)) a (state (t ! Suc i)))
                  (filter (\<lambda>i. action (t ! i) = Some a) [k..<length t])))"
proof (induction xs arbitrary: k acc)
  case Nil
  then show ?case by simp
next
  case (Cons x xs)
  from Cons.prems have x: "t ! k = x" and d: "drop (Suc k) t = xs" and k: "k < length t"
    using drop_Cons_nth [of k t x xs] by simp_all
  have upt: "[k..<length t] = k # [Suc k..<length t]"
    using k by (simp add: upt_conv_Cons)
  have nil: "xs = [] \<longleftrightarrow> Suc k = length t"
    using d k by (rule drop_Suc_nil)
  show ?case
  proof (cases "action x = Some a")
    case True
    show ?thesis
    proof (cases "xs = []")
      case True
      with \<open>action x = Some a\<close> nil show ?thesis by (simp add: getitem_def)
    next
      case False
      with nil k have "Suc k < length t" by linarith
      with True False x show ?thesis
        using Cons.IH [OF d, of "acc @ [SAS (state (t ! k)) a (state (t ! Suc k))]"]
        by (simp add: getitem_def upt)
    qed
  next
    case False
    show ?thesis
    proof (cases "xs = []")
      case True
      with False nil x show ?thesis by (simp add: upt)
    next
      case nonempty: False
      with False x show ?thesis
        using Cons.IH [OF d, of acc] by (simp add: upt)
    qed
  qed
qed

text \<open>
  Claim C10. When the action is not the action of the final step, \<^verbatim>\<open>get_post_states\<close>
  and \<^verbatim>\<open>get_sas_triples\<close> return one entry per occurrence of the action, built from the
  step that follows the occurrence. When the action is the action of the final step, the
  lookup of step \<^verbatim>\<open>i + 1\<close> is out of range and both calls raise \<^verbatim>\<open>IndexError\<close>.
\<close>

theorem post_states_sas_triples_last_step:
  "(t = [] \<or> action (last t) \<noteq> Some a \<longrightarrow>
      get_post_states t a = Inr (map (\<lambda>i. state (t ! Suc i)) (occurrences_of t a))
    \<and> get_sas_triples t a
        = Inr (map (\<lambda>i. SAS (state (t ! i)) a (state (t ! Suc i))) (occurrences_of t a)))
   \<and> (t \<noteq> [] \<and> action (last t) = Some a \<longrightarrow>
      get_post_states t a = Inl IndexError \<and> get_sas_triples t a = Inl IndexError)"
  using post_states_loop_drop [of 0 t t a "[]"] sas_triples_loop_drop [of 0 t t a "[]"]
  by (simp add: get_post_states_def get_sas_triples_def occurrences_of_def)

theorem post_states_sas_triples_last_step_witness:
  "action (last [\<lparr>state = [(''p'', True)], action = Some ''a''\<rparr>,
                 \<lparr>state = [(''p'', False)], action = Some ''b''\<rparr>]) \<noteq> Some ''a''
   \<and> get_post_states [\<lparr>state = [(''p'', True)], action = Some ''a''\<rparr>,
                       \<lparr>state = [(''p'', False)], action = Some ''b''\<rparr>] ''a''
       = Inr [[(''p'', False)]]
   \<and> get_sas_triples [\<lparr>state = [(''p'', True)], action = Some ''a''\<rparr>,
                       \<lparr>state = [(''p'', False)], action = Some ''b''\<rparr>] ''a''
       = Inr [SAS [(''p'', True)] ''a'' [(''p'', False)]]
   \<and> action (last [\<lparr>state = [(''p'', True)], action = Some ''a''\<rparr>,
                   \<lparr>state = [(''p'', False)], action = Some ''b''\<rparr>]) = Some ''b''
   \<and> get_post_states [\<lparr>state = [(''p'', True)], action = Some ''a''\<rparr>,
                       \<lparr>state = [(''p'', False)], action = Some ''b''\<rparr>] ''b''
       = Inl IndexError
   \<and> get_sas_triples [\<lparr>state = [(''p'', True)], action = Some ''a''\<rparr>,
                       \<lparr>state = [(''p'', False)], action = Some ''b''\<rparr>] ''b''
       = Inl IndexError"
  using post_states_sas_triples_last_step
          [of "[\<lparr>state = [(''p'', True)], action = Some ''a''\<rparr>,
                \<lparr>state = [(''p'', False)], action = Some ''b''\<rparr>]" "''a''"]
        post_states_sas_triples_last_step
          [of "[\<lparr>state = [(''p'', True)], action = Some ''a''\<rparr>,
                \<lparr>state = [(''p'', False)], action = Some ''b''\<rparr>]" "''b''"]
  by (simp add: occurrences_of_def upt_rec)

section \<open>Serialising a model\<close>

text \<open>
  Claim C4. The claim asks that deserialising the serialisation of a model gives the model
  back. On the code the first half never returns: the fields of a \<^verbatim>\<open>Model\<close> are sets,
  the encoder hands a set to \<^verbatim>\<open>default\<close>, and a set has no \<^verbatim>\<open>__dict__\<close>. For every
  model \<^verbatim>\<open>serialize\<close> raises \<^verbatim>\<open>AttributeError\<close>.
\<close>

theorem serialize_raises: "serialize fluent_obj action_obj m = Inl AttributeError"
  by (simp add: serialize_def Model_instance_def)

section \<open>Registering a converted formula\<close>

lemma set_update_subset: "set (AList.update k v al) \<subseteq> insert (k, v) (set al)"
  by (induction al) auto

lemma foldE_id: "(\<And>x s. x \<in> set xs \<Longrightarrow> f x s = Inr s) \<Longrightarrow> foldE f xs s = Inr s"
  by (induction xs) simp_all



lemma map_of_fold_update_const:
  "map_of (fold (\<lambda>x. AList.update (f x) v) xs c) k
     = (if k \<in> f ` set xs then Some v else map_of c k)"
  by (induction xs arbitrary: c) (auto simp: update_conv')

lemma set_fold_add_aux:
  "set (fold add_aux cl A) = set A \<union> Set.filter is_aux (var_name ` set cl)"
proof (induction cl arbitrary: A)
  case Nil
  then show ?case by simp
next
  case (Cons v cl)
  obtain n b where v: "v = Var n b" by (cases v)
  show ?case by (cases n) (auto simp: v Cons.IH)
qed

lemma fold_clause_step:
  "fold clause_step cnf s
     = (fold (\<lambda>cl. fold add_aux cl) cnf (fst s),
        fold (\<lambda>cl. AList.update (set cl) HARD) cnf (snd s))"
  by (induction cnf arbitrary: s) (simp_all add: clause_step_def)

lemma set_fold_fold_add_aux:
  "set (fold (\<lambda>cl. fold add_aux cl) cnf A) = set A \<union> aux_vars cnf"
  by (induction cnf arbitrary: A) (auto simp: set_fold_add_aux aux_vars_def)

lemma map_of_extract:
  "map_of (extract_aux_set_weights cnf c w) k
     = (if k \<in> aux_units cnf then Some (Weight (w * WMAX))
        else if k \<in> set ` set cnf then Some HARD else map_of c k)"
  by (simp add: extract_aux_set_weights_def Let_def fold_clause_step map_of_fold_update_const
        set_fold_fold_add_aux aux_units_def or_refactor_def)

lemma aux_vars_example:
  "aux_vars [[Var (Aux 0) False, Var (Named ''p'') True]] = {Aux 0}"
  by (auto simp: aux_vars_def)

lemma aux_units_example:
  "aux_units [[Var (Aux 0) False, Var (Named ''p'') True]] = {{Var (Aux 0) True}}"
  by (simp add: aux_units_def aux_vars_example)

text \<open>
  Claim C6, as the claim states it, fails where the converted formula contains the
  positive unit clause of one of its own auxiliary variables: the clause is marked hard
  and then overwritten by the soft weight of the variable.
\<close>

theorem extract_unit_clause_overwritten:
  "[Var (Aux 0) True] \<in> set [[Var (Aux 0) True]]
   \<and> map_of (extract_aux_set_weights [[Var (Aux 0) True]] [] (1/2)) (set [Var (Aux 0) True])
       = Some (Weight (1/2))
   \<and> Some (Weight (1/2)) \<noteq> Some HARD"
  by (simp add: extract_aux_set_weights_def clause_step_def or_refactor_def WMAX_def)

text \<open>
  Claim C6, amended. After a converted formula is registered with a weight, every
  auxiliary variable of the formula has its positive unit clause in the dict with the
  weight times \<^verbatim>\<open>WMAX\<close>; every clause of the formula that is not such a unit clause is in
  the dict as hard; every other key keeps what it had.
\<close>

theorem extract_registers:
  "(\<forall>aux \<in> aux_vars cnf.
      map_of (extract_aux_set_weights cnf c w) {Var aux True} = Some (Weight (w * WMAX)))
   \<and> (\<forall>cl \<in> set cnf. set cl \<notin> aux_units cnf \<longrightarrow>
        map_of (extract_aux_set_weights cnf c w) (set cl) = Some HARD)
   \<and> (\<forall>k. k \<notin> set ` set cnf \<and> k \<notin> aux_units cnf \<longrightarrow>
        map_of (extract_aux_set_weights cnf c w) k = map_of c k)"
  by (simp add: map_of_extract aux_units_def)

theorem extract_registers_witness:
  "Aux 0 \<in> aux_vars [[Var (Aux 0) False, Var (Named ''p'') True]]
   \<and> map_of (extract_aux_set_weights [[Var (Aux 0) False, Var (Named ''p'') True]] [] (1/2))
        {Var (Aux 0) True} = Some (Weight (1/2))
   \<and> [Var (Aux 0) False, Var (Named ''p'') True]
        \<in> set [[Var (Aux 0) False, Var (Named ''p'') True]]
   \<and> set [Var (Aux 0) False, Var (Named ''p'') True]
        \<notin> aux_units [[Var (Aux 0) False, Var (Named ''p'') True]]
   \<and> map_of (extract_aux_set_weights [[Var (Aux 0) False, Var (Named ''p'') True]] [] (1/2))
        (set [Var (Aux 0) False, Var (Named ''p'') True]) = Some HARD
   \<and> {Var (Named ''q'') True} \<notin> set ` set [[Var (Aux 0) False, Var (Named ''p'') True]]
   \<and> {Var (Named ''q'') True} \<notin> aux_units [[Var (Aux 0) False, Var (Named ''p'') True]]
   \<and> map_of (extract_aux_set_weights [[Var (Aux 0) False, Var (Named ''p'') True]] [] (1/2))
        {Var (Named ''q'') True} = None"
  using extract_registers [of "[[Var (Aux 0) False, Var (Named ''p'') True]]" "[]" "1/2"]
  by (simp add: aux_vars_example aux_units_example WMAX_def)

section \<open>The entry point\<close>

text \<open>
  Claim C9. For an observation collection whose token type is not the noisy, partial,
  disordered, parallel one, \<^verbatim>\<open>AMDN.__new__\<close> raises \<^verbatim>\<open>IncompatibleObservationToken\<close> with
  the received type and the technique, whatever the builders, the conversion and the
  encoder would have done: none of them is reached.
\<close>

theorem AMDN_new_incompatible:
  "type obs \<noteq> NoisyPartialDisorderedParallelObservation \<Longrightarrow>
   AMDN_new to_CNF pair_text to_wcnf obs occ_threshold
     = Inl (IncompatibleObservationToken (type obs) ''AMDN'')"
  by (simp add: AMDN_new_def)

theorem AMDN_new_incompatible_witness:
  "type \<lparr>type = ActionObservation, traces = [], all_par_act_sets = [], states = [],
         propositions = [''r''], actions = [''a''], probabilities = []\<rparr>
     \<noteq> NoisyPartialDisorderedParallelObservation
   \<and> AMDN_new (\<lambda>f. []) (\<lambda>k. ''k'') (\<lambda>cs ws. Inl TypeError :: error + wcnf \<times> unit)
        \<lparr>type = ActionObservation, traces = [], all_par_act_sets = [], states = [],
         propositions = [''r''], actions = [''a''], probabilities = []\<rparr> 0
       = Inl (IncompatibleObservationToken ActionObservation ''AMDN'')"
  using AMDN_new_incompatible
          [of "\<lparr>type = ActionObservation, traces = [], all_par_act_sets = [], states = [],
                propositions = [''r''], actions = [''a''], probabilities = []\<rparr>"
              "\<lambda>f. []" "\<lambda>k. ''k''" "\<lambda>cs ws. Inl TypeError :: error + wcnf \<times> unit" 0]
  by simp

section \<open>The hard parallel constraints\<close>

lemma no_hard_update:
  "HARD \<notin> snd ` set c \<Longrightarrow> v \<noteq> HARD \<Longrightarrow> HARD \<notin> snd ` set (AList.update k v c)"
  using set_update_subset [of k v c] by force

lemma hard_parallel_inner:
  "HARD \<notin> snd ` set c \<Longrightarrow>
   HARD \<notin> snd ` set (fold (\<lambda>r hard_constraints.
                    AList.update (implies (delete (pair_text r) act) (pre (pair_text r) act))
                      (Weight WMAX)
                      (AList.update
                         (implies (add (pair_text r) act) (negate (pre (pair_text r) act)))
                         (Weight WMAX) hard_constraints)) rs c)"
proof (induction rs arbitrary: c)
  case Nil
  then show ?case by simp
next
  case (Cons r rs)
  show ?case
    unfolding fold_Cons comp_apply
    by (rule Cons.IH) (intro no_hard_update Cons.prems, simp_all)
qed

lemma hard_parallel_outer:
  "HARD \<notin> snd ` set c \<Longrightarrow>
   HARD \<notin> snd ` set (fold (\<lambda>act. fold (\<lambda>r hard_constraints.
                    AList.update (implies (delete (pair_text r) act) (pre (pair_text r) act))
                      (Weight WMAX)
                      (AList.update
                         (implies (add (pair_text r) act) (negate (pre (pair_text r) act)))
                         (Weight WMAX) hard_constraints)) rs) acts c)"
proof (induction acts arbitrary: c)
  case Nil
  then show ?case by simp
next
  case (Cons a acts)
  show ?case
    unfolding fold_Cons comp_apply
    by (rule Cons.IH) (rule hard_parallel_inner, rule Cons.prems)
qed

lemma hard_constraints_of_empty: "HARD \<notin> snd ` set c \<Longrightarrow> hard_constraints_of c = []"
  by (induction c) (auto simp: hard_constraints_of_def)

text \<open>
  Claim C1. The claim asks for the two formulas for every action and every proposition,
  each with the hard weight, so that the aggregator moves them to the hard list. The
  builder loops over the keys of the probability table instead of the propositions: with one
  action, one proposition and an empty table it registers nothing. Whatever it registers
  carries the number \<^verbatim>\<open>WMAX\<close> and not the string \<^verbatim>\<open>"HARD"\<close>, so the aggregator's hard list
  takes none of it.
\<close>

theorem hard_parallel_over_probabilities:
  "build_hard_parallel_constraints pair_text
      \<lparr>type = NoisyPartialDisorderedParallelObservation, traces = [], all_par_act_sets = [],
       states = [], propositions = [''r''], actions = [''a''], probabilities = []\<rparr> = []
   \<and> hard_constraints_of (build_hard_parallel_constraints pair_text obs) = []"
proof
  show "build_hard_parallel_constraints pair_text
      \<lparr>type = NoisyPartialDisorderedParallelObservation, traces = [], all_par_act_sets = [],
       states = [], propositions = [''r''], actions = [''a''], probabilities = []\<rparr> = []"
    by (simp add: build_hard_parallel_constraints_def)
  have "HARD \<notin> snd ` set (build_hard_parallel_constraints pair_text obs)"
    unfolding build_hard_parallel_constraints_def by (rule hard_parallel_outer) simp
  then show "hard_constraints_of (build_hard_parallel_constraints pair_text obs) = []"
    by (rule hard_constraints_of_empty)
qed

section \<open>The disorder constraints\<close>

text \<open>
  Claim C2. The claim asks that the returned dict cover every trace. The builder returns
  at the end of the first round of its loop over the traces: with a first trace of one
  parallel action set and a second trace of two, it returns the empty dict; with the two
  traces in the other order it returns what the pair of the two-set trace registers.
\<close>

theorem disorder_first_trace_only:
  "build_disorder_constraints to_CNF
      \<lparr>type = NoisyPartialDisorderedParallelObservation, traces = [],
       all_par_act_sets = [[[''x'']], [[''x''], [''y'']]],
       states = [], propositions = [''r''], actions = [''x'', ''y''],
       probabilities = [({''x'', ''y''}, 1/2)]\<rparr> = Inr (Some [])
   \<and> build_disorder_constraints to_CNF
      \<lparr>type = NoisyPartialDisorderedParallelObservation, traces = [],
       all_par_act_sets = [[[''x''], [''y'']], [[''x'']]],
       states = [], propositions = [''r''], actions = [''x'', ''y''],
       probabilities = [({''x'', ''y''}, 1/2)]\<rparr>
     = Inr (Some (disorder_register to_CNF ''x'' ''y'' (1/2) ''r'' []))"
  by (simp add: build_disorder_constraints_def disorder_trace_def disorder_pair_def lookup_def)

section \<open>The noise constraints\<close>

lemma fold_id: "(\<And>x s. x \<in> set xs \<Longrightarrow> f x s = s) \<Longrightarrow> fold f xs s = s"
  by (induction xs) simp_all

lemma calculate_all_r_occ_zero:
  assumes "\<forall>tr \<in> set (traces obs). \<forall>s \<in> set tr. true_prop (state s) = []"
  shows "calculate_all_r_occ obs = 0"
  unfolding calculate_all_r_occ_def
  by (rule fold_id, rule fold_id) (use assms in auto)

lemma zero_row_update: "zero_row row \<Longrightarrow> zero_row (AList.update r 0 row)"
  unfolding zero_row_def using set_update_subset [of r 0 row] by fastforce

lemma zero_row_fold: "zero_row row \<Longrightarrow> zero_row (fold (\<lambda>r. AList.update r 0) props row)"
  by (induction props arbitrary: row) (simp_all add: zero_row_update)

lemma zero_table_update: "zero_table occ \<Longrightarrow> zero_row row \<Longrightarrow> zero_table (AList.update a row occ)"
  unfolding zero_table_def using set_update_subset [of a row occ] by fastforce

lemma zero_table_fold:
  "zero_table occ \<Longrightarrow> zero_row row \<Longrightarrow> zero_table (fold (\<lambda>a. AList.update a row) acts occ)"
  by (induction acts arbitrary: occ) (simp_all add: zero_table_update)

lemma zero_table_set_up: "zero_table (set_up_occurrences_dict obs)"
  unfolding set_up_occurrences_dict_def
  by (rule zero_table_fold) (simp add: zero_table_def, rule zero_row_fold, simp add: zero_row_def)

lemma threshold_loop_zero:
  assumes "zero_table occ" and "0 \<le> occ_threshold"
  shows "threshold_loop lit all_occ occ_threshold occ = Inr []"
  unfolding threshold_loop_def
proof (rule foldE_id)
  fix arow s
  assume "arow \<in> set occ"
  with assms(1) have z: "zero_row (snd arow)" by (simp add: zero_table_def)
  show "foldE (over_threshold lit all_occ occ_threshold (fst arow)) (snd arow) s = Inr s"
  proof (rule foldE_id)
    fix e c
    assume "e \<in> set (snd arow)"
    with z have "snd e = 0" by (simp add: zero_row_def)
    with assms(2) show "over_threshold lit all_occ occ_threshold (fst arow) e c = Inr c"
      by (simp add: over_threshold_def)
  qed
qed

lemma count_after_id:
  assumes "\<forall>tr \<in> set (traces obs). \<forall>s \<in> set tr. true_prop (state s) = []"
  shows "foldE (\<lambda>tr. foldE (\<lambda>j. foldE (increment (action (tr ! j)))
                                        (true_prop (state (tr ! (j + 1)))))
                              [0..<length tr - 1])
                 (traces obs) occ = Inr occ"
proof (rule foldE_id)
  fix tr s
  assume tr: "tr \<in> set (traces obs)"
  show "foldE (\<lambda>j. foldE (increment (action (tr ! j))) (true_prop (state (tr ! (j + 1)))))
          [0..<length tr - 1] s = Inr s"
  proof (rule foldE_id)
    fix j c
    assume "j \<in> set [0..<length tr - 1]"
    then have "tr ! (j + 1) \<in> set tr" by simp
    with assms tr have "true_prop (state (tr ! (j + 1))) = []" by blast
    then show "foldE (increment (action (tr ! j))) (true_prop (state (tr ! (j + 1)))) c = Inr c"
      by simp
  qed
qed

lemma count_before_id:
  assumes "\<forall>tr \<in> set (traces obs). \<forall>s \<in> set tr. true_prop (state s) = []"
  shows "foldE (\<lambda>tr. foldE (\<lambda>j. foldE (increment (action (tr ! j)))
                                        (true_prop (state (tr ! j))))
                              [0..<length tr])
                 (traces obs) occ = Inr occ"
proof (rule foldE_id)
  fix tr s
  assume tr: "tr \<in> set (traces obs)"
  show "foldE (\<lambda>j. foldE (increment (action (tr ! j))) (true_prop (state (tr ! j))))
          [0..<length tr] s = Inr s"
  proof (rule foldE_id)
    fix j c
    assume "j \<in> set [0..<length tr]"
    then have "tr ! j \<in> set tr" by simp
    with assms tr have "true_prop (state (tr ! j)) = []" by blast
    then show "foldE (increment (action (tr ! j))) (true_prop (state (tr ! j))) c = Inr c"
      by simp
  qed
qed

lemma noise_6_empty:
  assumes "\<forall>tr \<in> set (traces obs). \<forall>s \<in> set tr. true_prop (state s) = []"
    and "0 \<le> occ_threshold"
  shows "noise_constraints_6 obs all_occ occ_threshold = Inr []"
  by (simp only: noise_constraints_6_def count_after_id [OF assms(1)] sum.case
        threshold_loop_zero [OF zero_table_set_up assms(2)])

lemma noise_8_empty:
  assumes "\<forall>tr \<in> set (traces obs). \<forall>s \<in> set tr. true_prop (state s) = []"
    and "0 \<le> occ_threshold"
  shows "noise_constraints_8 obs all_occ occ_threshold = Inr []"
  by (simp only: noise_constraints_8_def count_before_id [OF assms(1)] sum.case
        threshold_loop_zero [OF zero_table_set_up assms(2)])

lemma noise_7_empty:
  assumes nt: "\<forall>sts \<in> set (states obs). \<forall>st \<in> set sts. true_prop st = []"
    and len: "length (all_par_act_sets obs) \<le> length (states obs)"
    and lens: "\<forall>i < length (all_par_act_sets obs).
                 length (all_par_act_sets obs ! i) < length (states obs ! i)"
  shows "noise_constraints_7 obs all_occ = Inr []"
proof -
  have count: "foldE (\<lambda>trace. foldE (\<lambda>st. foldE increment_7 (true_prop st)) trace)
                 (states obs) occ = Inr occ" for occ
  proof (rule foldE_id)
    fix sts s
    assume sts: "sts \<in> set (states obs)"
    show "foldE (\<lambda>st. foldE increment_7 (true_prop st)) sts s = Inr s"
    proof (rule foldE_id)
      fix st c
      assume "st \<in> set sts"
      with nt sts have "true_prop st = []" by blast
      then show "foldE increment_7 (true_prop st) c = Inr c" by simp
    qed
  qed
  have main: "foldE (\<lambda>i c.
              (case getitem (states obs) i of
                 Inl e \<Rightarrow> Inl e
               | Inr sts \<Rightarrow>
                   foldE (\<lambda>j c.
                       (case getitem sts (j + 1) of
                          Inl e \<Rightarrow> Inl e
                        | Inr after \<Rightarrow>
                            foldE (added_by_some occ all_occ
                                     (all_par_act_sets obs ! i ! j) (sts ! j))
                                  (true_prop after) c))
                     [0..<length (all_par_act_sets obs ! i)] c))
            [0..<length (all_par_act_sets obs)] [] = Inr []" for occ
  proof (rule foldE_id)
    fix i c
    assume "i \<in> set [0..<length (all_par_act_sets obs)]"
    then have i: "i < length (all_par_act_sets obs)" by simp
    with len have i': "i < length (states obs)" by simp
    then have mem: "states obs ! i \<in> set (states obs)" by simp
    have inner: "foldE (\<lambda>j c.
                       (case getitem (states obs ! i) (j + 1) of
                          Inl e \<Rightarrow> Inl e
                        | Inr after \<Rightarrow>
                            foldE (added_by_some occ all_occ
                                     (all_par_act_sets obs ! i ! j) (states obs ! i ! j))
                                  (true_prop after) c))
                     [0..<length (all_par_act_sets obs ! i)] c = Inr c"
    proof (rule foldE_id)
      fix j d
      assume "j \<in> set [0..<length (all_par_act_sets obs ! i)]"
      with lens i have j: "j + 1 < length (states obs ! i)" by fastforce
      then have "states obs ! i ! (j + 1) \<in> set (states obs ! i)" by simp
      with nt mem have "true_prop (states obs ! i ! (j + 1)) = []" by blast
      with j show "(case getitem (states obs ! i) (j + 1) of
                          Inl e \<Rightarrow> Inl e
                        | Inr after \<Rightarrow>
                            foldE (added_by_some occ all_occ
                                     (all_par_act_sets obs ! i ! j) (states obs ! i ! j))
                                  (true_prop after) d) = Inr d"
        by (simp add: getitem_def)
    qed
    from i' inner show "(case getitem (states obs) i of
                 Inl e \<Rightarrow> Inl e
               | Inr sts \<Rightarrow>
                   foldE (\<lambda>j c.
                       (case getitem sts (j + 1) of
                          Inl e \<Rightarrow> Inl e
                        | Inr after \<Rightarrow>
                            foldE (added_by_some occ all_occ
                                     (all_par_act_sets obs ! i ! j) (sts ! j))
                                  (true_prop after) c))
                     [0..<length (all_par_act_sets obs ! i)] c) = Inr c"
      by (simp add: getitem_def)
  qed
  show ?thesis
    by (simp only: noise_constraints_7_def count main sum.case)
qed

text \<open>
  Claim C7, as the claim states it, fails for a negative threshold: the zero counts of the
  occurrence table exceed it, and the weight divides by the zero total.
\<close>

theorem noise_negative_threshold_divides_by_zero:
  "calculate_all_r_occ quiet_obs = 0
   \<and> build_noise_constraints quiet_obs (- 1) = Inl ZeroDivisionError"
  by (simp add: quiet_obs_def calculate_all_r_occ_def true_prop_def build_noise_constraints_def
       noise_constraints_6_def set_up_occurrences_dict_def threshold_loop_def over_threshold_def)

text \<open>
  Claim C7, amended. For a collection in which no state of any trace holds a true
  proposition and which has, for every trace, more states than parallel action sets, and
  for every threshold that is not negative, the total occurrence count is zero and the
  noise builder returns the empty dict; no division is reached.
\<close>

theorem noise_empty_without_true_propositions:
  assumes "\<forall>tr \<in> set (traces obs). \<forall>s \<in> set tr. true_prop (state s) = []"
    and "\<forall>sts \<in> set (states obs). \<forall>st \<in> set sts. true_prop st = []"
    and "length (all_par_act_sets obs) \<le> length (states obs)"
    and "\<forall>i < length (all_par_act_sets obs).
           length (all_par_act_sets obs ! i) < length (states obs ! i)"
    and "0 \<le> occ_threshold"
  shows "calculate_all_r_occ obs = 0 \<and> build_noise_constraints obs occ_threshold = Inr []"
  by (simp add: calculate_all_r_occ_zero [OF assms(1)] build_noise_constraints_def
        noise_6_empty [OF assms(1) assms(5)] noise_8_empty [OF assms(1) assms(5)]
        noise_7_empty [OF assms(2) assms(3) assms(4)] merge_def)

theorem noise_empty_without_true_propositions_witness:
  "list_all (list_all (\<lambda>s. true_prop (state s) = [])) (traces quiet_obs)
   \<and> list_all (list_all (\<lambda>st. true_prop st = [])) (states quiet_obs)
   \<and> length (all_par_act_sets quiet_obs) \<le> length (states quiet_obs)
   \<and> list_all (\<lambda>i. length (all_par_act_sets quiet_obs ! i) < length (states quiet_obs ! i))
        [0..<length (all_par_act_sets quiet_obs)]
   \<and> (0::int) \<le> 0
   \<and> calculate_all_r_occ quiet_obs = 0
   \<and> build_noise_constraints quiet_obs 0 = Inr []"
  using noise_empty_without_true_propositions [of quiet_obs 0]
  by (simp add: quiet_obs_def true_prop_def)



































section \<open>The weights against the hard weight\<close>









lemma example_keys_differ:
  "set [Var (Aux 0) False, pre ''r'' ''x'', add ''r'' ''x'', delete ''r'' ''x'']
     \<noteq> set [Var (Aux 1) False, pre ''r'' ''y'', add ''r'' ''y'', delete ''r'' ''y'']"
proof
  assume "set [Var (Aux 0) False, pre ''r'' ''x'', add ''r'' ''x'', delete ''r'' ''x'']
     = set [Var (Aux 1) False, pre ''r'' ''y'', add ''r'' ''y'', delete ''r'' ''y'']"
  then have "Var (Aux 0) False
     \<in> set [Var (Aux 1) False, pre ''r'' ''y'', add ''r'' ''y'', delete ''r'' ''y'']"
    by (metis list.set_intros(1))
  then show False by (simp add: set_precond_def set_add_def set_del_def)
qed




section \<open>The disorder hypotheses of a pair\<close>

text \<open>
  Claim C5. The claim asks, for each adjacent pair of parallel action sets, each pair of
  distinct actions \<^verbatim>\<open>(x, y)\<close> with disorder probability \<^verbatim>\<open>p\<close> and each proposition \<^verbatim>\<open>r\<close>, for
  the ordered formula with the soft weight \<^verbatim>\<open>(1 - p) * WMAX\<close> and the swapped formula with
  \<^verbatim>\<open>p * WMAX\<close>. The builder returns inside its loop over the traces, as in claim C2: with
  the pair in a second trace it registers neither formula. With the same pair in the first
  trace it registers the conversion of the ordered formula with \<^verbatim>\<open>1 - p\<close> and then the
  conversion of the swapped formula with \<^verbatim>\<open>p\<close>; under the stand-in conversion the returned
  dict holds the soft weights 7/10 and 3/10 for the two auxiliary variables, which add up
  to \<^verbatim>\<open>WMAX\<close>.
\<close>

theorem disorder_pair_of_later_trace_unregistered:
  "build_disorder_constraints to_CNF (later_pair_obs (3 / 10)) = Inr (Some [])
   \<and> build_disorder_constraints to_CNF (pair_obs (3 / 10))
       = Inr (Some
           (extract_aux_set_weights
              (to_CNF (Or [And [Lit (Var (Named ''r is a precondition of y'') True),
                                Lit (Var (Named ''r is deleted by y'') False),
                                Lit (Var (Named ''r is deleted by x'') True)],
                           And [Lit (Var (Named ''r is added by y'') True),
                                Lit (Var (Named ''r is a precondition of x'') True)],
                           And [Lit (Var (Named ''r is added by y'') True),
                                Lit (Var (Named ''r is deleted by x'') True)],
                           And [Lit (Var (Named ''r is deleted by y'') True),
                                Lit (Var (Named ''r is added by x'') True)]]))
              (extract_aux_set_weights
                 (to_CNF (Or [And [Lit (Var (Named ''r is a precondition of x'') True),
                                   Lit (Var (Named ''r is deleted by x'') False),
                                   Lit (Var (Named ''r is deleted by y'') True)],
                              And [Lit (Var (Named ''r is added by x'') True),
                                   Lit (Var (Named ''r is a precondition of y'') True)],
                              And [Lit (Var (Named ''r is added by x'') True),
                                   Lit (Var (Named ''r is deleted by y'') True)],
                              And [Lit (Var (Named ''r is deleted by x'') True),
                                   Lit (Var (Named ''r is added by y'') True)]]))
                 [] (7 / 10))
              (3 / 10)))
   \<and> build_disorder_constraints example_cnf (pair_obs (3 / 10))
       = Inr (Some
           [(set [Var (Aux 0) False, Var (Named ''r is a precondition of x'') True,
                  Var (Named ''r is added by x'') True, Var (Named ''r is deleted by x'') True],
             HARD),
            ({Var (Aux 0) True}, Weight (7 / 10)),
            (set [Var (Aux 1) False, Var (Named ''r is a precondition of y'') True,
                  Var (Named ''r is added by y'') True, Var (Named ''r is deleted by y'') True],
             HARD),
            ({Var (Aux 1) True}, Weight (3 / 10))])
   \<and> sum_list (soft_weights
         [(set [Var (Aux 0) False, Var (Named ''r is a precondition of x'') True,
                  Var (Named ''r is added by x'') True, Var (Named ''r is deleted by x'') True],
             HARD),
            ({Var (Aux 0) True}, Weight (7 / 10)),
            (set [Var (Aux 1) False, Var (Named ''r is a precondition of y'') True,
                  Var (Named ''r is added by y'') True, Var (Named ''r is deleted by y'') True],
             HARD),
            ({Var (Aux 1) True}, Weight (3 / 10))]) = WMAX"
proof (intro conjI)
  show "build_disorder_constraints to_CNF (later_pair_obs (3 / 10)) = Inr (Some [])"
    by (simp add: build_disorder_constraints_def disorder_trace_def later_pair_obs_def)
  have run: "build_disorder_constraints cnf (pair_obs (3 / 10))
               = Inr (Some (disorder_register cnf ''x'' ''y'' (3 / 10) ''r'' []))" for cnf
    by (simp add: build_disorder_constraints_def disorder_trace_def disorder_pair_def
          lookup_def pair_obs_def)
  show "build_disorder_constraints to_CNF (pair_obs (3 / 10))
       = Inr (Some
           (extract_aux_set_weights
              (to_CNF (Or [And [Lit (Var (Named ''r is a precondition of y'') True),
                                Lit (Var (Named ''r is deleted by y'') False),
                                Lit (Var (Named ''r is deleted by x'') True)],
                           And [Lit (Var (Named ''r is added by y'') True),
                                Lit (Var (Named ''r is a precondition of x'') True)],
                           And [Lit (Var (Named ''r is added by y'') True),
                                Lit (Var (Named ''r is deleted by x'') True)],
                           And [Lit (Var (Named ''r is deleted by y'') True),
                                Lit (Var (Named ''r is added by x'') True)]]))
              (extract_aux_set_weights
                 (to_CNF (Or [And [Lit (Var (Named ''r is a precondition of x'') True),
                                   Lit (Var (Named ''r is deleted by x'') False),
                                   Lit (Var (Named ''r is deleted by y'') True)],
                              And [Lit (Var (Named ''r is added by x'') True),
                                   Lit (Var (Named ''r is a precondition of y'') True)],
                              And [Lit (Var (Named ''r is added by x'') True),
                                   Lit (Var (Named ''r is deleted by y'') True)],
                              And [Lit (Var (Named ''r is deleted by x'') True),
                                   Lit (Var (Named ''r is added by y'') True)]]))
                 [] (7 / 10))
              (3 / 10)))"
    unfolding run
    by (simp add: disorder_register_def ordered_formula_def disordered_formula_def
          set_precond_def set_del_def set_add_def)
  have o: "example_cnf (ordered_formula ''r'' ''x'' ''y'')
             = [[Var (Aux 0) False, pre ''r'' ''x'', add ''r'' ''x'', delete ''r'' ''x'']]"
    by (simp add: example_cnf_def)
  have d: "example_cnf (disordered_formula ''r'' ''x'' ''y'')
             = [[Var (Aux 1) False, pre ''r'' ''y'', add ''r'' ''y'', delete ''r'' ''y'']]"
    by (simp add: example_cnf_def disordered_formula_def ordered_formula_def
          set_precond_def set_add_def set_del_def)
  have reg: "disorder_register example_cnf ''x'' ''y'' (3 / 10) ''r'' []
     = [(set [Var (Aux 0) False, pre ''r'' ''x'', add ''r'' ''x'', delete ''r'' ''x''], HARD),
          ({Var (Aux 0) True}, Weight (7 / 10)),
          (set [Var (Aux 1) False, pre ''r'' ''y'', add ''r'' ''y'', delete ''r'' ''y''], HARD),
          ({Var (Aux 1) True}, Weight (3 / 10))]"
    unfolding disorder_register_def o d
    using example_keys_differ
    by (simp add: extract_aux_set_weights_def clause_step_def or_refactor_def WMAX_def
          set_precond_def set_add_def set_del_def)
  show "build_disorder_constraints example_cnf (pair_obs (3 / 10))
       = Inr (Some
           [(set [Var (Aux 0) False, Var (Named ''r is a precondition of x'') True,
                  Var (Named ''r is added by x'') True, Var (Named ''r is deleted by x'') True],
             HARD),
            ({Var (Aux 0) True}, Weight (7 / 10)),
            (set [Var (Aux 1) False, Var (Named ''r is a precondition of y'') True,
                  Var (Named ''r is added by y'') True, Var (Named ''r is deleted by y'') True],
             HARD),
            ({Var (Aux 1) True}, Weight (3 / 10))])"
    unfolding run reg
    by (simp add: set_precond_def set_add_def set_del_def)
  show "sum_list (soft_weights
         [(set [Var (Aux 0) False, Var (Named ''r is a precondition of x'') True,
                  Var (Named ''r is added by x'') True, Var (Named ''r is deleted by x'') True],
             HARD),
            ({Var (Aux 0) True}, Weight (7 / 10)),
            (set [Var (Aux 1) False, Var (Named ''r is a precondition of y'') True,
                  Var (Named ''r is added by y'') True, Var (Named ''r is deleted by y'') True],
             HARD),
            ({Var (Aux 1) True}, Weight (3 / 10))]) = WMAX"
    by (simp add: soft_weights_def WMAX_def)
qed

end
